theory Spec2Isabelle
  imports Main "HOL-Library.Word"
begin

section \<open>Data model of the negotiation layer\<close>

text \<open>
  Modelled from the spec: the enumerations \<open>RTPCodecType\<close> and
  \<open>RTPTransceiverDirection\<close> are declared outside the files at hand. They are taken
  with the values that the specification gives them and the code names (kind: audio or
  video; direction: sendrecv, sendonly, recvonly, inactive).
\<close>

datatype RTPCodecType = RTPCodecTypeAudio | RTPCodecTypeVideo

datatype RTPTransceiverDirection =
    RTPTransceiverDirectionSendrecv
  | RTPTransceiverDirectionSendonly
  | RTPTransceiverDirectionRecvonly
  | RTPTransceiverDirectionInactive

text \<open>
  Go pointers are addresses (\<open>nat\<close>) into a store; a pointer that the code tests against
  \<open>nil\<close> or sets to \<open>nil\<close> is an \<open>option\<close>.

  \<open>RTPTransceiver\<close> is the struct of the source: the three \<open>atomic.Value\<close> fields hold
  the sender pointer, the receiver pointer and the direction. \<open>Sender()\<close> and
  \<open>Receiver()\<close> give \<open>nil\<close> for a field never stored; the direction is stored when the
  transceiver is made, so \<open>Direction()\<close> is the field.
\<close>

type_synonym ptr = nat

record RTPTransceiver =
  sender :: "ptr option"
  receiver :: "ptr option"
  direction :: RTPTransceiverDirection
  stopped :: bool
  kind :: RTPCodecType

section \<open>The transceiver matcher: \<open>satisfyTypeAndDirection\<close>\<close>

text \<open>The closure \<open>getPreferredDirections\<close>: a switch on the remote direction.\<close>

fun getPreferredDirections :: "RTPTransceiverDirection \<Rightarrow> RTPTransceiverDirection list" where
  "getPreferredDirections RTPTransceiverDirectionSendrecv =
     [RTPTransceiverDirectionRecvonly, RTPTransceiverDirectionSendrecv]"
| "getPreferredDirections RTPTransceiverDirectionSendonly =
     [RTPTransceiverDirectionRecvonly, RTPTransceiverDirectionSendrecv]"
| "getPreferredDirections RTPTransceiverDirectionRecvonly =
     [RTPTransceiverDirectionSendonly, RTPTransceiverDirectionSendrecv]"
| "getPreferredDirections RTPTransceiverDirectionInactive = []"

text \<open>
  The inner loop \<open>for i := range localTransceivers\<close>, started at index \<open>i\<close> on the rest of
  the slice: it skips (\<open>continue\<close>) an entry of another kind or direction and stops at the
  first entry that has both, whose index it yields.
\<close>

fun scanTransceivers ::
  "RTPCodecType \<Rightarrow> RTPTransceiverDirection \<Rightarrow> RTPTransceiver list \<Rightarrow> nat \<Rightarrow> nat option" where
  "scanTransceivers remoteKind possibleDirection [] i = None"
| "scanTransceivers remoteKind possibleDirection (t # ts) i =
     (if kind t \<noteq> remoteKind \<or> possibleDirection \<noteq> direction t
      then scanTransceivers remoteKind possibleDirection ts (Suc i)
      else Some i)"

text \<open>
  The outer loop over the preferred directions. On a hit at index \<open>i\<close> the function returns
  \<open>t\<close> and \<open>append(localTransceivers[:i], localTransceivers[i+1:]...)\<close>, the slice
  without position \<open>i\<close>. A pool entry stands for the transceiver that the pointer in the
  slice points to; the function reads its kind and direction only.
\<close>

fun pluckTransceiver ::
  "RTPCodecType \<Rightarrow> RTPTransceiverDirection list \<Rightarrow> RTPTransceiver list
   \<Rightarrow> (RTPTransceiver \<times> RTPTransceiver list) option" where
  "pluckTransceiver remoteKind [] localTransceivers = None"
| "pluckTransceiver remoteKind (possibleDirection # ds) localTransceivers =
     (case scanTransceivers remoteKind possibleDirection localTransceivers 0 of
        Some i \<Rightarrow>
          Some (localTransceivers ! i, take i localTransceivers @ drop (Suc i) localTransceivers)
      | None \<Rightarrow> pluckTransceiver remoteKind ds localTransceivers)"

text \<open>The transceiver built after both loops fell through: only kind and direction are set.\<close>

definition inactiveTransceiver :: "RTPCodecType \<Rightarrow> RTPTransceiver" where
  "inactiveTransceiver remoteKind =
     \<lparr>sender = None, receiver = None, direction = RTPTransceiverDirectionInactive,
      stopped = False, kind = remoteKind\<rparr>"

definition satisfyTypeAndDirection ::
  "RTPCodecType \<Rightarrow> RTPTransceiverDirection \<Rightarrow> RTPTransceiver list
   \<Rightarrow> RTPTransceiver \<times> RTPTransceiver list" where
  "satisfyTypeAndDirection remoteKind remoteDirection localTransceivers =
     (case pluckTransceiver remoteKind (getPreferredDirections remoteDirection) localTransceivers of
        Some r \<Rightarrow> r
      | None \<Rightarrow> (inactiveTransceiver remoteKind, localTransceivers))"

text \<open>The test of the inner loop, as a predicate on a pool entry.\<close>

definition satisfies :: "RTPCodecType \<Rightarrow> RTPTransceiverDirection \<Rightarrow> RTPTransceiver \<Rightarrow> bool" where
  "satisfies remoteKind d t \<longleftrightarrow> kind t = remoteKind \<and> direction t = d"

section \<open>The store: tracks, senders and transceivers behind pointers\<close>

text \<open>
  Modelled from the spec: \<open>Track\<close> and \<open>RTPSender\<close> are structs of this package that the
  files at hand use without declaring. Of each, the fields that \<open>replaceTrack\<close>,
  \<open>setSendingTrack\<close> and \<open>setSender\<close> read or write are kept, under the names the code
  uses: a track's \<open>kind\<close> (read through \<open>Kind()\<close>), \<open>codec.MimeType\<close>, \<open>receiver\<close>
  (set for an inbound track, \<open>nil\<close> for an outbound one), \<open>activeSenders\<close> (the ordered
  senders) and \<open>totalSenderCount\<close> (the count, an integer); a sender's \<open>track\<close> (its
  bound track) and \<open>transceiver\<close> (the back reference). The two fields that share a name
  with a field of \<open>RTPTransceiver\<close> carry the prefix \<open>track_\<close>.
\<close>

record Track =
  track_kind :: RTPCodecType
  codec_MimeType :: string
  track_receiver :: "ptr option"
  activeSenders :: "ptr list"
  totalSenderCount :: int

record RTPSender =
  track :: "ptr option"
  transceiver :: "ptr option"

text \<open>
  Every address holds an object (a Go pointer is \<open>nil\<close> or valid), so each part of the
  store is a total function from addresses.
\<close>

record store =
  transceivers :: "ptr \<Rightarrow> RTPTransceiver"
  senders :: "ptr \<Rightarrow> RTPSender"
  tracks :: "ptr \<Rightarrow> Track"

text \<open>
  The errors, one constructor for each place that makes one:
  \<^item> \<open>TypeError\<close>: \<open>&rtcerr.TypeError\<close>, the track's kind is not the transceiver's;
  \<^item> \<open>InvalidStateError\<close>: \<open>&rtcerr.InvalidStateError\<close>, the transceiver is stopped;
  \<^item> \<open>InvalidModificationError\<close>: \<open>&rtcerr.InvalidModificationError\<close>, the replacement
    would require renegotiation;
  \<^item> \<open>RemoteTrackError\<close>: \<open>fmt.Errorf("cannot replace with remote track")\<close>;
  \<^item> \<open>InvalidStateChange\<close>: \<open>fmt.Errorf("invalid state change in
    RTPTransceiver.setSending")\<close>, the error of \<open>setSendingTrack\<close>;
  \<^item> \<open>StopError\<close>: whatever \<open>sender.Stop()\<close> returned, passed on as it is.
\<close>

datatype error =
    TypeError
  | InvalidStateError
  | InvalidModificationError
  | RemoteTrackError
  | InvalidStateChange
  | StopError string

text \<open>
  What a call does: it returns (with \<open>nil\<close>, that is \<open>None\<close>, or an error) and leaves a
  store; or it panics (a \<open>nil\<close> dereference, a slice made with a negative capacity); or it
  never returns, blocked on a mutex that the calling goroutine holds already.
\<close>

datatype outcome = Returned "error option" store | Panicked | Deadlocked

datatype mutex = SenderMu ptr | TrackMu ptr

text \<open>
  \<open>mu.Lock()\<close> by a goroutine that holds the mutexes \<open>held\<close>: Go's mutexes are not
  reentrant, so locking one of \<open>held\<close> blocks for ever (\<open>None\<close>). Each \<open>Lock\<close> of the
  source is followed by a deferred \<open>Unlock\<close>, so all are released when the call returns.
\<close>

definition lock :: "mutex \<Rightarrow> mutex list \<Rightarrow> mutex list option" where
  "lock m held = (if m \<in> set held then None else Some (m # held))"

section \<open>\<open>setSender\<close>, \<open>setDirection\<close>, \<open>setSendingTrack\<close>\<close>

definition setDirection :: "store \<Rightarrow> ptr \<Rightarrow> RTPTransceiverDirection \<Rightarrow> store" where
  "setDirection st t d =
     st\<lparr>transceivers := (transceivers st)(t := (transceivers st t)\<lparr>direction := d\<rparr>)\<rparr>"

text \<open>
  \<open>setSender\<close>: a non-\<open>nil\<close> \<open>s\<close> is locked and gets the back reference; the current
  sender, if there is one, is locked and loses its back reference; then \<open>s\<close> is stored.
  \<open>None\<close> is the deadlock of locking the same sender twice.
\<close>

definition setSender :: "store \<Rightarrow> ptr \<Rightarrow> ptr option \<Rightarrow> store option" where
  "setSender st t s =
     (let held = (case s of None \<Rightarrow> [] | Some x \<Rightarrow> [SenderMu x]);
          st1 = (case s of
                   None \<Rightarrow> st
                 | Some x \<Rightarrow> st\<lparr>senders := (senders st)(x := (senders st x)\<lparr>transceiver := Some t\<rparr>)\<rparr>)
      in case sender (transceivers st1 t) of
           None \<Rightarrow>
             Some (st1\<lparr>transceivers := (transceivers st1)(t := (transceivers st1 t)\<lparr>sender := s\<rparr>)\<rparr>)
         | Some currSender \<Rightarrow>
             (case lock (SenderMu currSender) held of
                None \<Rightarrow> None
              | Some _ \<Rightarrow>
                  (let st2 = st1\<lparr>senders := (senders st1)
                               (currSender := (senders st1 currSender)\<lparr>transceiver := None\<rparr>)\<rparr>
                   in Some (st2\<lparr>transceivers :=
                              (transceivers st2)(t := (transceivers st2 t)\<lparr>sender := s\<rparr>)\<rparr>))))"

text \<open>The \<open>switch\<close> of \<open>setSendingTrack\<close>, on the store as it is when the switch is reached.\<close>

definition switchDirection :: "store \<Rightarrow> ptr \<Rightarrow> ptr option \<Rightarrow> outcome" where
  "switchDirection st t trk =
     (let d = direction (transceivers st t) in
      if trk \<noteq> None \<and> d = RTPTransceiverDirectionRecvonly
        then Returned None (setDirection st t RTPTransceiverDirectionSendrecv)
      else if trk \<noteq> None \<and> d = RTPTransceiverDirectionInactive
        then Returned None (setDirection st t RTPTransceiverDirectionSendonly)
      else if trk = None \<and> d = RTPTransceiverDirectionSendrecv
        then Returned None (setDirection st t RTPTransceiverDirectionRecvonly)
      else if trk = None \<and> d = RTPTransceiverDirectionSendonly
        then Returned None (setDirection st t RTPTransceiverDirectionInactive)
      else Returned (Some InvalidStateChange) st)"

text \<open>
  \<open>setSendingTrack\<close>: \<open>t.Sender().track = track\<close> dereferences the sender (a panic when the
  slot is empty); a \<open>nil\<close> track then empties the slot with \<open>setSender(nil)\<close>; the switch
  comes last.
\<close>

definition setSendingTrack :: "store \<Rightarrow> ptr \<Rightarrow> ptr option \<Rightarrow> outcome" where
  "setSendingTrack st t trk =
     (case sender (transceivers st t) of
        None \<Rightarrow> Panicked
      | Some s \<Rightarrow>
          (let st1 = st\<lparr>senders := (senders st)(s := (senders st s)\<lparr>track := trk\<rparr>)\<rparr> in
           if trk = None
           then (case setSender st1 t None of
                   None \<Rightarrow> Deadlocked
                 | Some st2 \<Rightarrow> switchDirection st2 t trk)
           else switchDirection st1 t trk))"

section \<open>\<open>replaceTrack\<close>\<close>

text \<open>
  The loop that filters the old track's \<open>activeSenders\<close>: it runs over the slice with the
  filtered slice and the old track's count as its state; an entry that is the sender is
  left out and the count goes down by one.
\<close>

fun removeSender :: "ptr \<Rightarrow> ptr list \<Rightarrow> ptr list \<Rightarrow> int \<Rightarrow> ptr list \<times> int" where
  "removeSender sndr [] filtered n = (filtered, n)"
| "removeSender sndr (s # rest) filtered n =
     (if s \<noteq> sndr then removeSender sndr rest (filtered @ [s]) n
      else removeSender sndr rest filtered (n - 1))"

text \<open>
  Lines 150 to 159, on the old track \<open>old\<close> of the sender: \<open>make\<close> with capacity
  \<open>len(activeSenders) - 1\<close> panics when the slice is empty (the capacity is negative).
\<close>

definition unsetCurrentTrack :: "store \<Rightarrow> ptr \<Rightarrow> ptr \<Rightarrow> store option" where
  "unsetCurrentTrack st sndr old =
     (let tr = tracks st old in
      if int (length (activeSenders tr)) - 1 < 0 then None
      else (case removeSender sndr (activeSenders tr) [] (totalSenderCount tr) of
              (filtered, n) \<Rightarrow>
                Some (st\<lparr>tracks := (tracks st)
                        (old := tr\<lparr>activeSenders := filtered, totalSenderCount := n\<rparr>)\<rparr>)))"

text \<open>Lines 162 to 164: bind the new track, append the sender, count it.\<close>

definition setNewTrack :: "store \<Rightarrow> ptr \<Rightarrow> ptr \<Rightarrow> store" where
  "setNewTrack st sndr new =
     (let st1 = st\<lparr>senders := (senders st)(sndr := (senders st sndr)\<lparr>track := Some new\<rparr>)\<rparr>;
          tr = tracks st1 new
      in st1\<lparr>tracks := (tracks st1)
             (new := tr\<lparr>activeSenders := activeSenders tr @ [sndr],
                       totalSenderCount := totalSenderCount tr + 1\<rparr>)\<rparr>)"

text \<open>
  The part of \<open>replaceTrack\<close> from line 129 on: the transceiver is sending and the track is
  not \<open>nil\<close>. The sender is locked, then the new track, then the sender's current track.
\<close>

definition swapTrack :: "store \<Rightarrow> ptr option \<Rightarrow> ptr \<Rightarrow> outcome" where
  "swapTrack st sndr new =
     (case sndr of
        None \<Rightarrow> Panicked
      | Some s \<Rightarrow>
          (case lock (TrackMu new) [SenderMu s] of
             None \<Rightarrow> Deadlocked
           | Some held \<Rightarrow>
               if track_receiver (tracks st new) \<noteq> None then Returned (Some RemoteTrackError) st
               else (case track (senders st s) of
                       None \<Rightarrow> Returned None (setNewTrack st s new)
                     | Some old \<Rightarrow>
                         (case lock (TrackMu old) held of
                            None \<Rightarrow> Deadlocked
                          | Some _ \<Rightarrow>
                              if codec_MimeType (tracks st old) \<noteq> codec_MimeType (tracks st new)
                              then Returned (Some InvalidModificationError) st
                              else (case unsetCurrentTrack st s old of
                                      None \<Rightarrow> Panicked
                                    | Some st1 \<Rightarrow> Returned None (setNewTrack st1 s new))))))"

text \<open>
  \<open>replaceTrack\<close>. \<open>RTPSender.Stop\<close> is not among the files at hand: it is the parameter
  \<open>stop\<close>, which takes the sender and the store and gives back its error (\<open>None\<close> for
  \<open>nil\<close>) and the store it leaves. With no sender, \<open>sender.Stop()\<close> is a call on \<open>nil\<close>,
  taken as a panic.
\<close>

definition replaceTrack ::
  "(ptr \<Rightarrow> store \<Rightarrow> string option \<times> store) \<Rightarrow> store \<Rightarrow> ptr \<Rightarrow> ptr option \<Rightarrow> outcome" where
  "replaceTrack stop st t trk =
     (if (case trk of None \<Rightarrow> False | Some k \<Rightarrow> track_kind (tracks st k) \<noteq> kind (transceivers st t))
        then Returned (Some TypeError) st
      else if stopped (transceivers st t) then Returned (Some InvalidStateError) st
      else
        (let sndr = sender (transceivers st t); dir = direction (transceivers st t) in
         if dir \<noteq> RTPTransceiverDirectionSendrecv \<and> dir \<noteq> RTPTransceiverDirectionSendonly
           then setSendingTrack st t trk
         else (case trk of
                 None \<Rightarrow>
                   (case sndr of
                      None \<Rightarrow> Panicked
                    | Some s \<Rightarrow>
                        (case stop s st of
                           (Some err, st1) \<Rightarrow> Returned (Some (StopError err)) st1
                         | (None, st1) \<Rightarrow> setSendingTrack st1 t None))
               | Some new \<Rightarrow> swapTrack st sndr new)))"


text \<open>The invariant of an outbound track: its count is the size of its sender list.\<close>

definition countsSenders :: "store \<Rightarrow> bool" where
  "countsSenders st \<longleftrightarrow>
     (\<forall>k. track_receiver (tracks st k) = None
          \<longrightarrow> totalSenderCount (tracks st k) = int (length (activeSenders (tracks st k))))"

text \<open>
  The table of section 4.1 of the specification, written from its rows: the direction that
  follows from the current one and from whether the track is non-null; \<open>None\<close> where the
  table says invalid.
\<close>

fun directionTable :: "RTPTransceiverDirection \<Rightarrow> bool \<Rightarrow> RTPTransceiverDirection option" where
  "directionTable RTPTransceiverDirectionRecvonly True = Some RTPTransceiverDirectionSendrecv"
| "directionTable RTPTransceiverDirectionInactive True = Some RTPTransceiverDirectionSendonly"
| "directionTable RTPTransceiverDirectionSendrecv False = Some RTPTransceiverDirectionRecvonly"
| "directionTable RTPTransceiverDirectionSendonly False = Some RTPTransceiverDirectionInactive"
| "directionTable d nonNull = None"

section \<open>Scenarios\<close>

text \<open>
  The stores of the scenarios C and D of the specification, used to run the functions. One
  video transceiver and one sender, both at address 0. Track 0 is track A (VP8), which
  lists sender 0; track 1 is track B (VP8) and track 2 is track C (H264), both without
  senders; track 3 is an inbound VP8 track (it has a receiver); any other address holds
  a VP8 track without senders. The transceiver's direction, its sender slot and the
  sender's bound track are the parameters.
\<close>

definition videoTrack :: "string \<Rightarrow> ptr option \<Rightarrow> ptr list \<Rightarrow> Track" where
  "videoTrack mime recv sndrs =
     \<lparr>track_kind = RTPCodecTypeVideo, codec_MimeType = mime, track_receiver = recv,
      activeSenders = sndrs, totalSenderCount = int (length sndrs)\<rparr>"

definition scenarioTracks :: "ptr \<Rightarrow> Track" where
  "scenarioTracks =
     (\<lambda>k. videoTrack ''video/VP8'' None [])
       (0 := videoTrack ''video/VP8'' None [0],
        2 := videoTrack ''video/H264'' None [],
        3 := videoTrack ''video/VP8'' (Some 0) [])"

definition scenario :: "RTPTransceiverDirection \<Rightarrow> ptr option \<Rightarrow> ptr option \<Rightarrow> store" where
  "scenario d slot bound =
     \<lparr>transceivers = (\<lambda>t. \<lparr>sender = slot, receiver = None, direction = d, stopped = False,
                             kind = RTPCodecTypeVideo\<rparr>),
      senders = (\<lambda>s. \<lparr>track = bound, transceiver = Some 0\<rparr>),
      tracks = scenarioTracks\<rparr>"


text \<open>A \<open>Stop\<close> that succeeds and leaves the store as it is, to run the scenarios with.\<close>

definition stopNothing :: "ptr \<Rightarrow> store \<Rightarrow> string option \<times> store" where
  "stopNothing s st = (None, st)"

text \<open>A pool entry for the matcher: a transceiver of a kind and a direction, not stopped.\<close>

definition localTransceiver ::
  "RTPCodecType \<Rightarrow> RTPTransceiverDirection \<Rightarrow> ptr option \<Rightarrow> RTPTransceiver" where
  "localTransceiver k d s =
     \<lparr>sender = s, receiver = None, direction = d, stopped = False, kind = k\<rparr>"

section \<open>RTP packets and the workers of the relays\<close>

text \<open>
  An RTP packet, as far as the relays read and write it. The packet type belongs to the RTP
  library; the fields are named as the examples name them. \<open>Extensions\<close> holds the header
  extensions as pairs of an id and a payload.
\<close>

type_synonym byte = "8 word"

record Packet =
  Extension :: bool
  ExtensionProfile :: "16 word"
  Extensions :: "(8 word \<times> byte list) list"
  PayloadType :: "8 word"
  SequenceNumber :: "16 word"
  Timestamp :: "32 word"
  SSRC :: "32 word"
  Payload :: "byte list"

text \<open>
  The library's \<open>GetExtension\<close>: the payload of the first extension with the id, and
  nothing when the packet carries no extension or none with the id.
\<close>

definition GetExtension :: "Packet \<Rightarrow> 8 word \<Rightarrow> byte list" where
  "GetExtension p ext =
     (if \<not> Extension p then []
      else (case find (\<lambda>e. fst e = ext) (Extensions p) of None \<Rightarrow> [] | Some e \<Rightarrow> snd e))"

text \<open>
  What \<open>WriteRTP\<close> returned: \<open>nil\<close>, \<open>io.ErrClosedPipe\<close> or another error. A worker loops
  for ever; run on a finite list of events it ends waiting for the next one, or it has
  panicked before.
\<close>

datatype writeResult = WriteOk | ErrClosedPipe | WriteFailed

datatype worker = Waiting | Aborted

subsection \<open>The echo relay\<close>

datatype outputTrack = OutputTrack1 | OutputTrack2

text \<open>The head of the \<open>OnTrack\<close> handler: the output track by \<open>trackCount\<close>, or a panic.\<close>

definition selectOutputTrack :: "int \<Rightarrow> outputTrack option" where
  "selectOutputTrack trackCount =
     (if trackCount = 0 then Some OutputTrack1
      else if trackCount = 1 then Some OutputTrack2
      else None)"

text \<open>
  The packet pump of the handler. An event is one turn of the loop: what \<open>ReadRTP\<close>
  returned (\<open>None\<close> for an error) and what \<open>WriteRTP\<close> returns for the packet. \<open>ssrcOf\<close>
  gives the SSRC of an output track. The result lists the writes in the order they are
  made, each with the track written to.
\<close>

fun echoPump ::
  "(outputTrack \<Rightarrow> 32 word) \<Rightarrow> outputTrack \<Rightarrow> (Packet option \<times> writeResult) list
   \<Rightarrow> (outputTrack \<times> Packet) list \<times> worker" where
  "echoPump ssrcOf outputTrack [] = ([], Waiting)"
| "echoPump ssrcOf outputTrack ((None, writeErr) # events) = ([], Aborted)"
| "echoPump ssrcOf outputTrack ((Some rtp, writeErr) # events) =
     (let rtp1 = rtp\<lparr>SSRC := ssrcOf OutputTrack1\<rparr> in
      if writeErr \<noteq> WriteOk \<and> writeErr \<noteq> ErrClosedPipe then ([(outputTrack, rtp1)], Aborted)
      else (case echoPump ssrcOf outputTrack events of
              (writes, w) \<Rightarrow> ((outputTrack, rtp1) # writes, w)))"

text \<open>The handler: it picks the output track, counts the inbound track, and pumps.\<close>

definition onTrackEcho ::
  "(outputTrack \<Rightarrow> 32 word) \<Rightarrow> int \<Rightarrow> (Packet option \<times> writeResult) list
   \<Rightarrow> int \<times> (outputTrack \<times> Packet) list \<times> worker" where
  "onTrackEcho ssrcOf trackCount events =
     (case selectOutputTrack trackCount of
        None \<Rightarrow> (trackCount, [], Aborted)
      | Some outputTrack \<Rightarrow> (trackCount + 1, echoPump ssrcOf outputTrack events))"

subsection \<open>The simulcast relay\<close>

text \<open>
  The variables shared by the handlers of the simulcast example: the selected stream id and
  the channel of packets (its buffered content).
\<close>

record relay =
  currRTPStreamID :: byte
  packets :: "Packet list"

text \<open>
  The \<open>OnMessage\<close> handler. Its argument is what \<open>json.Unmarshal\<close> made of the message:
  \<open>None\<close> for an error, else the string \<open>v.RID\<close> as its bytes. The handler panics on the
  error, and on \<open>v.RID[0]\<close> when the string is empty (index out of range); \<open>None\<close> is the
  panic.
\<close>

definition onMessage :: "byte list option \<Rightarrow> 'a relay_scheme \<Rightarrow> 'a relay_scheme option" where
  "onMessage unmarshalled r =
     (case unmarshalled of
        None \<Rightarrow> None
      | Some RID \<Rightarrow>
          (case RID of
             [] \<Rightarrow> None
           | c # cs \<Rightarrow> Some (r\<lparr>currRTPStreamID := c\<rparr>)))"

text \<open>The local variables of the packet pump of one inbound track.\<close>

record pumpState =
  lastTimestamp :: "32 word"
  isCurrTrack :: bool

definition pumpStart :: pumpState where
  "pumpStart = \<lparr>lastTimestamp = 0, isCurrTrack = False\<rparr>"

text \<open>
  What one turn of the pump does with the packet it read, after rewriting its timestamp:
  it panics (no stream id in the extension), skips the packet, or sends it to the channel,
  with or without a picture loss indication before.
\<close>

datatype pumpAction = Fatal Packet | Skipped Packet | Sent Packet bool

fun packetOf :: "pumpAction \<Rightarrow> Packet" where
  "packetOf (Fatal p) = p"
| "packetOf (Skipped p) = p"
| "packetOf (Sent p pli) = p"

text \<open>
  One turn of the loop, for the packet \<open>rtp\<close> read and the value \<open>currID\<close> that
  \<open>currRTPStreamID\<close> has when the turn compares it. \<open>ridExt\<close> is the id of the stream id
  extension.
\<close>

definition pumpStep :: "8 word \<Rightarrow> byte \<Rightarrow> pumpState \<Rightarrow> Packet \<Rightarrow> pumpState \<times> pumpAction" where
  "pumpStep ridExt currID st rtp =
     (let oldTimestamp = Timestamp rtp;
          rtp1 = (if lastTimestamp st = 0 then rtp\<lparr>Timestamp := 0\<rparr>
                  else rtp\<lparr>Timestamp := Timestamp rtp - lastTimestamp st\<rparr>);
          st1 = st\<lparr>lastTimestamp := oldTimestamp\<rparr>
      in case GetExtension rtp1 ridExt of
           [] \<Rightarrow> (st1, Fatal rtp1)
         | b # bs \<Rightarrow>
             if b \<noteq> currID then (st1\<lparr>isCurrTrack := False\<rparr>, Skipped rtp1)
             else if \<not> isCurrTrack st1 then (st1\<lparr>isCurrTrack := True\<rparr>, Sent rtp1 True)
             else (st1, Sent rtp1 False))"

text \<open>
  The pump on a list of events, each what \<open>ReadRTP\<close> returned and the selected stream id
  of that turn: the actions in order, one for each packet received.
\<close>

fun pump ::
  "8 word \<Rightarrow> pumpState \<Rightarrow> (Packet option \<times> byte) list \<Rightarrow> pumpAction list \<times> worker" where
  "pump ridExt st [] = ([], Waiting)"
| "pump ridExt st ((None, currID) # events) = ([], Aborted)"
| "pump ridExt st ((Some rtp, currID) # events) =
     (case pumpStep ridExt currID st rtp of
        (st1, Fatal p) \<Rightarrow> ([Fatal p], Aborted)
      | (st1, a) \<Rightarrow> (case pump ridExt st1 events of (acts, w) \<Rightarrow> (a # acts, w)))"

text \<open>
  The consumer of the channel: \<open>currTimestamp\<close> and the loop variable \<open>i\<close> (here
  \<open>seqNum\<close>), a \<open>uint32\<close> and a \<open>uint16\<close>, both zero at the start.
\<close>

record consumerState =
  currTimestamp :: "32 word"
  seqNum :: "16 word"

definition consumerStart :: consumerState where
  "consumerStart = \<lparr>currTimestamp = 0, seqNum = 0\<rparr>"

text \<open>The body of the loop up to the write: the packet as written and the new state.\<close>

definition consumerStep :: "32 word \<Rightarrow> consumerState \<Rightarrow> Packet \<Rightarrow> Packet \<times> consumerState" where
  "consumerStep outputSSRC st packet =
     (let st1 = st\<lparr>currTimestamp := currTimestamp st + Timestamp packet\<rparr> in
      (packet\<lparr>Timestamp := currTimestamp st1, SSRC := outputSSRC, SequenceNumber := seqNum st1,
              Extension := False, ExtensionProfile := 0, Extensions := []\<rparr>,
       st1))"

text \<open>
  The consumer on a list of events, each the packet taken from the channel and what
  \<open>WriteRTP\<close> returns for it: the packets written, in order. After a write that did not
  fail fatally, \<open>i++\<close>.
\<close>

fun consumer ::
  "32 word \<Rightarrow> consumerState \<Rightarrow> (Packet \<times> writeResult) list \<Rightarrow> Packet list \<times> worker" where
  "consumer outputSSRC st [] = ([], Waiting)"
| "consumer outputSSRC st ((packet, writeErr) # events) =
     (case consumerStep outputSSRC st packet of
        (written, st1) \<Rightarrow>
          if writeErr \<noteq> WriteOk \<and> writeErr \<noteq> ErrClosedPipe then ([written], Aborted)
          else (case consumer outputSSRC (st1\<lparr>seqNum := seqNum st1 + 1\<rparr>) events of
                  (ps, w) \<Rightarrow> (written # ps, w)))"

subsection \<open>Packets and SSRCs to run the relays with\<close>

definition samplePacket :: "32 word \<Rightarrow> 32 word \<Rightarrow> byte \<Rightarrow> Packet" where
  "samplePacket ssrc ts rid =
     \<lparr>Extension = True, ExtensionProfile = 0xBEDE, Extensions = [(1, [rid])], PayloadType = 96,
      SequenceNumber = 7, Timestamp = ts, SSRC = ssrc, Payload = []\<rparr>"

fun sampleSSRC :: "outputTrack \<Rightarrow> 32 word" where
  "sampleSSRC OutputTrack1 = 1111"
| "sampleSSRC OutputTrack2 = 2222"

section \<open>Properties of the matcher\<close>

lemma scanTransceivers_None:
  "scanTransceivers k d ts i = None \<longleftrightarrow> (\<forall>t \<in> set ts. \<not> satisfies k d t)"
  by (induction ts arbitrary: i) (auto simp: satisfies_def)

lemma scanTransceivers_first:
  assumes "n < length ts" "satisfies k d (ts ! n)" "\<forall>j<n. \<not> satisfies k d (ts ! j)"
  shows "scanTransceivers k d ts i = Some (i + n)"
  using assms
proof (induction ts arbitrary: i n)
  case Nil
  then show ?case by simp
next
  case (Cons t ts)
  show ?case
  proof (cases n)
    case 0
    with Cons.prems show ?thesis by (simp add: satisfies_def)
  next
    case (Suc m)
    from Cons.prems Suc have head: "\<not> satisfies k d t" by auto
    from Cons.prems Suc have "m < length ts" "satisfies k d (ts ! m)"
      "\<forall>j<m. \<not> satisfies k d (ts ! j)" by auto
    then have "scanTransceivers k d ts (Suc i) = Some (Suc i + m)"
      by (rule Cons.IH)
    with head Suc show ?thesis by (auto simp: satisfies_def)
  qed
qed

lemma pluckTransceiver_skip:
  assumes "\<forall>d \<in> set ds. \<forall>t \<in> set pool. \<not> satisfies k d t"
  shows "pluckTransceiver k (ds @ es) pool = pluckTransceiver k es pool"
  using assms by (induction ds) (auto simp: scanTransceivers_None [THEN iffD2])

lemma pluckTransceiver_hit:
  assumes "n < length pool" "satisfies k d (pool ! n)" "\<forall>j<n. \<not> satisfies k d (pool ! j)"
  shows "pluckTransceiver k (d # es) pool = Some (pool ! n, take n pool @ drop (Suc n) pool)"
  using scanTransceivers_first [OF assms, of 0] by simp

text \<open>
  Claim C6. The preferred local directions are recvonly then sendrecv for a remote sendrecv
  or sendonly, and sendonly then sendrecv for a remote recvonly. When \<open>d\<close> is the first
  preferred direction that some pool entry of the remote kind has, and \<open>n\<close> is the first
  index of such an entry, the function returns that entry and the pool without position
  \<open>n\<close>. When no preferred direction has an entry (so for every empty pool), it returns a new
  transceiver of the remote kind with direction inactive, and the pool as it was. Being a
  function of its three arguments, the result is determined by them, and it is defined on
  the empty pool.
\<close>

theorem satisfyTypeAndDirection_match:
  "getPreferredDirections RTPTransceiverDirectionSendrecv =
     [RTPTransceiverDirectionRecvonly, RTPTransceiverDirectionSendrecv]
   \<and> getPreferredDirections RTPTransceiverDirectionSendonly =
     [RTPTransceiverDirectionRecvonly, RTPTransceiverDirectionSendrecv]
   \<and> getPreferredDirections RTPTransceiverDirectionRecvonly =
     [RTPTransceiverDirectionSendonly, RTPTransceiverDirectionSendrecv]
   \<and> (\<forall>ds d es n.
        getPreferredDirections remoteDirection = ds @ d # es
        \<and> (\<forall>d' \<in> set ds. \<forall>t \<in> set pool. \<not> satisfies remoteKind d' t)
        \<and> n < length pool \<and> satisfies remoteKind d (pool ! n)
        \<and> (\<forall>j<n. \<not> satisfies remoteKind d (pool ! j))
        \<longrightarrow> satisfyTypeAndDirection remoteKind remoteDirection pool
              = (pool ! n, take n pool @ drop (Suc n) pool))
   \<and> ((\<forall>d \<in> set (getPreferredDirections remoteDirection).
          \<forall>t \<in> set pool. \<not> satisfies remoteKind d t)
        \<longrightarrow> satisfyTypeAndDirection remoteKind remoteDirection pool
              = (\<lparr>sender = None, receiver = None, direction = RTPTransceiverDirectionInactive,
                  stopped = False, kind = remoteKind\<rparr>, pool))
   \<and> satisfyTypeAndDirection remoteKind remoteDirection []
        = (\<lparr>sender = None, receiver = None, direction = RTPTransceiverDirectionInactive,
            stopped = False, kind = remoteKind\<rparr>, [])"
proof (intro conjI allI impI)
  fix ds d es n
  assume h: "getPreferredDirections remoteDirection = ds @ d # es
        \<and> (\<forall>d' \<in> set ds. \<forall>t \<in> set pool. \<not> satisfies remoteKind d' t)
        \<and> n < length pool \<and> satisfies remoteKind d (pool ! n)
        \<and> (\<forall>j<n. \<not> satisfies remoteKind d (pool ! j))"
  then have "pluckTransceiver remoteKind (ds @ d # es) pool
      = pluckTransceiver remoteKind (d # es) pool"
    by (intro pluckTransceiver_skip) blast
  also from h have "\<dots> = Some (pool ! n, take n pool @ drop (Suc n) pool)"
    by (intro pluckTransceiver_hit) blast+
  finally show "satisfyTypeAndDirection remoteKind remoteDirection pool
      = (pool ! n, take n pool @ drop (Suc n) pool)"
    using h by (simp add: satisfyTypeAndDirection_def)
next
  assume "\<forall>d \<in> set (getPreferredDirections remoteDirection).
            \<forall>t \<in> set pool. \<not> satisfies remoteKind d t"
  then have "pluckTransceiver remoteKind (getPreferredDirections remoteDirection @ []) pool
      = pluckTransceiver remoteKind [] pool"
    by (rule pluckTransceiver_skip)
  then show "satisfyTypeAndDirection remoteKind remoteDirection pool
      = (\<lparr>sender = None, receiver = None, direction = RTPTransceiverDirectionInactive,
          stopped = False, kind = remoteKind\<rparr>, pool)"
    by (simp add: satisfyTypeAndDirection_def inactiveTransceiver_def)
next
  have "pluckTransceiver remoteKind ds [] = None" for ds
    by (induction ds) auto
  then show "satisfyTypeAndDirection remoteKind remoteDirection []
      = (\<lparr>sender = None, receiver = None, direction = RTPTransceiverDirectionInactive,
          stopped = False, kind = remoteKind\<rparr>, [])"
    by (simp add: satisfyTypeAndDirection_def inactiveTransceiver_def)
qed simp_all

theorem satisfyTypeAndDirection_match_witness:
  "satisfyTypeAndDirection RTPCodecTypeVideo RTPTransceiverDirectionSendrecv
     [localTransceiver RTPCodecTypeAudio RTPTransceiverDirectionRecvonly None,
      localTransceiver RTPCodecTypeVideo RTPTransceiverDirectionSendrecv (Some 1),
      localTransceiver RTPCodecTypeVideo RTPTransceiverDirectionSendrecv (Some 2)]
   = (localTransceiver RTPCodecTypeVideo RTPTransceiverDirectionSendrecv (Some 1),
      [localTransceiver RTPCodecTypeAudio RTPTransceiverDirectionRecvonly None,
       localTransceiver RTPCodecTypeVideo RTPTransceiverDirectionSendrecv (Some 2)])
   \<and> satisfyTypeAndDirection RTPCodecTypeAudio RTPTransceiverDirectionRecvonly
       [localTransceiver RTPCodecTypeVideo RTPTransceiverDirectionSendonly (Some 1)]
     = (\<lparr>sender = None, receiver = None, direction = RTPTransceiverDirectionInactive,
         stopped = False, kind = RTPCodecTypeAudio\<rparr>,
        [localTransceiver RTPCodecTypeVideo RTPTransceiverDirectionSendonly (Some 1)])"
proof
  let ?pool = "[localTransceiver RTPCodecTypeAudio RTPTransceiverDirectionRecvonly None,
      localTransceiver RTPCodecTypeVideo RTPTransceiverDirectionSendrecv (Some 1),
      localTransceiver RTPCodecTypeVideo RTPTransceiverDirectionSendrecv (Some 2)]"
  have pre: "getPreferredDirections RTPTransceiverDirectionSendrecv
        = [RTPTransceiverDirectionRecvonly] @ RTPTransceiverDirectionSendrecv # []
      \<and> (\<forall>d' \<in> set [RTPTransceiverDirectionRecvonly].
            \<forall>t \<in> set ?pool. \<not> satisfies RTPCodecTypeVideo d' t)
      \<and> 1 < length ?pool
      \<and> satisfies RTPCodecTypeVideo RTPTransceiverDirectionSendrecv (?pool ! 1)
      \<and> (\<forall>j<1. \<not> satisfies RTPCodecTypeVideo RTPTransceiverDirectionSendrecv (?pool ! j))"
    by (simp add: satisfies_def localTransceiver_def)
  have hit: "satisfyTypeAndDirection RTPCodecTypeVideo RTPTransceiverDirectionSendrecv ?pool
      = (?pool ! 1, take 1 ?pool @ drop (Suc 1) ?pool)"
    using satisfyTypeAndDirection_match
      [where remoteDirection = RTPTransceiverDirectionSendrecv and pool = ?pool
         and remoteKind = RTPCodecTypeVideo,
       THEN conjunct2, THEN conjunct2, THEN conjunct2, THEN conjunct1, rule_format, OF pre] .
  then show "satisfyTypeAndDirection RTPCodecTypeVideo RTPTransceiverDirectionSendrecv ?pool
      = (localTransceiver RTPCodecTypeVideo RTPTransceiverDirectionSendrecv (Some 1),
         [localTransceiver RTPCodecTypeAudio RTPTransceiverDirectionRecvonly None,
          localTransceiver RTPCodecTypeVideo RTPTransceiverDirectionSendrecv (Some 2)])"
    by simp
next
  let ?pool = "[localTransceiver RTPCodecTypeVideo RTPTransceiverDirectionSendonly (Some 1)]"
  have pre: "\<forall>d \<in> set (getPreferredDirections RTPTransceiverDirectionRecvonly).
      \<forall>t \<in> set ?pool. \<not> satisfies RTPCodecTypeAudio d t"
    by (simp add: satisfies_def localTransceiver_def)
  show "satisfyTypeAndDirection RTPCodecTypeAudio RTPTransceiverDirectionRecvonly ?pool
     = (\<lparr>sender = None, receiver = None, direction = RTPTransceiverDirectionInactive,
         stopped = False, kind = RTPCodecTypeAudio\<rparr>, ?pool)"
    using satisfyTypeAndDirection_match
      [where remoteDirection = RTPTransceiverDirectionRecvonly and pool = ?pool
         and remoteKind = RTPCodecTypeAudio,
       THEN conjunct2, THEN conjunct2, THEN conjunct2, THEN conjunct2, THEN conjunct1,
       THEN mp, OF pre] .
qed

section \<open>Properties of \<open>setSendingTrack\<close> and \<open>replaceTrack\<close>\<close>

lemma setSender_None:
  "setSender st t None =
     Some (case sender (transceivers st t) of
        None \<Rightarrow> st\<lparr>transceivers := (transceivers st)(t := (transceivers st t)\<lparr>sender := None\<rparr>)\<rparr>
      | Some c \<Rightarrow> st\<lparr>senders := (senders st)(c := (senders st c)\<lparr>transceiver := None\<rparr>),
                    transceivers := (transceivers st)(t := (transceivers st t)\<lparr>sender := None\<rparr>)\<rparr>)"
  by (simp add: setSender_def lock_def Let_def split: option.splits)

lemma removeSender_eq:
  "removeSender s xs filtered n = (filtered @ filter (\<lambda>x. x \<noteq> s) xs, n - int (count_list xs s))"
  by (induction xs arbitrary: filtered n) auto

lemma length_filter_count_list:
  "int (length (filter (\<lambda>x. x \<noteq> s) xs)) = int (length xs) - int (count_list xs s)"
  by (induction xs) auto

lemma switchDirection_Returned:
  assumes "switchDirection st t trk = Returned e st'"
  shows "tracks st' = tracks st" and "senders st' = senders st"
    and "e = None \<or> e = Some InvalidStateChange"
    and "e \<noteq> None \<Longrightarrow> st' = st"
  using assms by (auto simp: switchDirection_def setDirection_def Let_def split: if_splits)

lemma setSendingTrack_Returned:
  assumes "setSendingTrack st t trk = Returned e st'"
  shows "tracks st' = tracks st"
    and "e = None \<or> e = Some InvalidStateChange"
    and "direction (transceivers st' t) \<noteq> direction (transceivers st t) \<Longrightarrow> e = None"
proof -
  from assms obtain s where s: "sender (transceivers st t) = Some s"
    by (auto simp: setSendingTrack_def split: option.splits)
  define st1 where "st1 = st\<lparr>senders := (senders st)(s := (senders st s)\<lparr>track := trk\<rparr>)\<rparr>"
  define st2 where "st2 = (if trk = None then the (setSender st1 t None) else st1)"
  have sw: "switchDirection st2 t trk = Returned e st'"
    using assms s by (auto simp: setSendingTrack_def st1_def st2_def setSender_None Let_def
        split: if_splits)
  have t2: "tracks st2 = tracks st" and d2: "direction (transceivers st2 t) = direction (transceivers st t)"
    by (auto simp: st2_def st1_def setSender_None split: option.splits)
  from switchDirection_Returned(1) [OF sw] t2 show "tracks st' = tracks st" by simp
  from switchDirection_Returned(3) [OF sw] show "e = None \<or> e = Some InvalidStateChange" .
  from switchDirection_Returned(4) [OF sw] d2
  show "direction (transceivers st' t) \<noteq> direction (transceivers st t) \<Longrightarrow> e = None"
    by (cases e) auto
qed

lemma unsetCurrentTrack_counts:
  assumes "countsSenders st" "unsetCurrentTrack st s old = Some st1"
  shows "countsSenders st1"
  using assms
  by (auto simp: countsSenders_def unsetCurrentTrack_def removeSender_eq Let_def
      length_filter_count_list split: if_splits)

lemma setNewTrack_counts:
  assumes "countsSenders st"
  shows "countsSenders (setNewTrack st s new)"
  using assms by (auto simp: countsSenders_def setNewTrack_def Let_def)

lemma swapTrack_Returned:
  assumes "swapTrack st sndr new = Returned e st'"
  shows "countsSenders st \<Longrightarrow> countsSenders st'"
    and "e = None \<or> (e = Some RemoteTrackError \<or> e = Some InvalidModificationError) \<and> st' = st"
  using assms
  by (auto simp: swapTrack_def lock_def setNewTrack_counts unsetCurrentTrack_counts
      split: option.splits if_splits)



text \<open>
  Claim C4, as amended. On a transceiver whose sender slot holds a sender,
  \<open>setSendingTrack\<close> returns, and the direction it leaves is the table of section 4.1
  applied to the previous direction and to whether the track is non-null: recvonly with a
  track becomes sendrecv, inactive with a track becomes sendonly, sendrecv without a track
  becomes recvonly, sendonly without a track becomes inactive, and the call returns no
  error; in every other case it returns the invalid-state-change error and the direction
  is as before.
\<close>

theorem setSendingTrack_direction:
  assumes "sender (transceivers st t) = Some s"
  shows "\<exists>st'. setSendingTrack st t trk =
            Returned (case directionTable (direction (transceivers st t)) (trk \<noteq> None) of
                        None \<Rightarrow> Some InvalidStateChange | Some d \<Rightarrow> None) st'
          \<and> direction (transceivers st' t) =
              (case directionTable (direction (transceivers st t)) (trk \<noteq> None) of
                 None \<Rightarrow> direction (transceivers st t) | Some d \<Rightarrow> d)"
  using assms
  by (cases "direction (transceivers st t)"; cases trk)
     (auto simp: setSendingTrack_def switchDirection_def setDirection_def setSender_None Let_def)

text \<open>
  The theorem at work: a recvonly transceiver with a sender, given track B, becomes
  sendrecv; a sendrecv transceiver given a track keeps its direction and gets the error.
\<close>

theorem setSendingTrack_direction_witness:
  "sender (transceivers (scenario RTPTransceiverDirectionRecvonly (Some 0) None) 0) = Some 0
   \<and> (\<exists>st'. setSendingTrack (scenario RTPTransceiverDirectionRecvonly (Some 0) None) 0 (Some 1)
              = Returned None st'
            \<and> direction (transceivers st' 0) = RTPTransceiverDirectionSendrecv)
   \<and> (\<exists>st'. setSendingTrack (scenario RTPTransceiverDirectionSendrecv (Some 0) (Some 0)) 0 (Some 1)
              = Returned (Some InvalidStateChange) st'
            \<and> direction (transceivers st' 0) = RTPTransceiverDirectionSendrecv)"
proof (intro conjI)
  show h1: "sender (transceivers (scenario RTPTransceiverDirectionRecvonly (Some 0) None) 0) = Some 0"
    by (simp add: scenario_def)
  from setSendingTrack_direction [OF h1, of "Some 1"]
  show "\<exists>st'. setSendingTrack (scenario RTPTransceiverDirectionRecvonly (Some 0) None) 0 (Some 1)
              = Returned None st'
            \<and> direction (transceivers st' 0) = RTPTransceiverDirectionSendrecv"
    by (simp add: scenario_def)
  have h2: "sender (transceivers (scenario RTPTransceiverDirectionSendrecv (Some 0) (Some 0)) 0) = Some 0"
    by (simp add: scenario_def)
  from setSendingTrack_direction [OF h2, of "Some 1"]
  show "\<exists>st'. setSendingTrack (scenario RTPTransceiverDirectionSendrecv (Some 0) (Some 0)) 0 (Some 1)
              = Returned (Some InvalidStateChange) st'
            \<and> direction (transceivers st' 0) = RTPTransceiverDirectionSendrecv"
    by (simp add: scenario_def)
qed

text \<open>
  The claim as first stated, for every call, fails where the sender slot is empty (as a
  successful \<open>setSendingTrack(nil)\<close> leaves it): on a recvonly transceiver with no sender
  and a non-null track the call panics on the \<open>nil\<close> sender and nothing becomes sendrecv.
\<close>

theorem setSendingTrack_direction_counterexample:
  "setSendingTrack (scenario RTPTransceiverDirectionRecvonly None None) 0 (Some 1) = Panicked"
  by (simp add: setSendingTrack_def scenario_def)

text \<open>
  Such a store is reached by the code itself: on the sendrecv transceiver of scenario C,
  \<open>replaceTrack(nil)\<close> succeeds and leaves a recvonly transceiver without a sender, on
  which the next \<open>replaceTrack\<close> with a track panics in \<open>setSendingTrack\<close>.
\<close>

lemma setSendingTrack_after_nil_panics:
  "(case replaceTrack stopNothing (scenario RTPTransceiverDirectionSendrecv (Some 0) (Some 0)) 0 None
    of Returned err st1 \<Rightarrow>
         err = None \<and> sender (transceivers st1 0) = None
         \<and> direction (transceivers st1 0) = RTPTransceiverDirectionRecvonly
         \<and> replaceTrack stopNothing st1 0 (Some 1) = Panicked
     | Panicked \<Rightarrow> False
     | Deadlocked \<Rightarrow> False)"
  by (simp add: replaceTrack_def setSendingTrack_def setSender_None switchDirection_def
      setDirection_def stopNothing_def scenario_def scenarioTracks_def videoTrack_def Let_def)

text \<open>
  The swap where it goes through. \<open>replaceTrack\<close> on a transceiver that is not stopped
  and whose direction is sendrecv or sendonly, with a track of the transceiver's kind that
  is not inbound, a sender in the slot and a track \<open>old\<close> bound to it, where the new track
  is another track than \<open>old\<close> and \<open>old\<close> lists at least one active sender: if the MIME
  types of the two codecs differ the call returns the invalid-modification error
  (RenegotiationRequired) and the store is as before; otherwise it returns no error, the
  sender is filtered out of the active senders of \<open>old\<close> and the count of \<open>old\<close> goes down
  by one for each entry removed, the sender's bound track is the new track, the sender is
  appended to the new track's active senders and that count goes up by one. Nothing else
  changes, so the direction is as before.
\<close>

lemma replaceTrack_swap:
  assumes "\<not> stopped (transceivers st t)"
    and "direction (transceivers st t) = RTPTransceiverDirectionSendrecv
         \<or> direction (transceivers st t) = RTPTransceiverDirectionSendonly"
    and "track_kind (tracks st new) = kind (transceivers st t)"
    and "track_receiver (tracks st new) = None"
    and "sender (transceivers st t) = Some s"
    and "track (senders st s) = Some old"
    and "old \<noteq> new"
    and "activeSenders (tracks st old) \<noteq> []"
  shows "replaceTrack stop st t (Some new) =
    (if codec_MimeType (tracks st old) \<noteq> codec_MimeType (tracks st new)
     then Returned (Some InvalidModificationError) st
     else Returned None
       (st\<lparr>senders := (senders st)(s := (senders st s)\<lparr>track := Some new\<rparr>),
           tracks := (tracks st)
             (old := (tracks st old)
                \<lparr>activeSenders := filter (\<lambda>x. x \<noteq> s) (activeSenders (tracks st old)),
                 totalSenderCount := totalSenderCount (tracks st old)
                                       - int (count_list (activeSenders (tracks st old)) s)\<rparr>,
              new := (tracks st new)
                \<lparr>activeSenders := activeSenders (tracks st new) @ [s],
                 totalSenderCount := totalSenderCount (tracks st new) + 1\<rparr>)\<rparr>))"
proof -
  have sw: "replaceTrack stop st t (Some new) = swapTrack st (Some s) new"
    using assms(1-3,5) by (auto simp: replaceTrack_def)
  have un: "unsetCurrentTrack st s old =
      Some (st\<lparr>tracks := (tracks st)
             (old := (tracks st old)
                \<lparr>activeSenders := filter (\<lambda>x. x \<noteq> s) (activeSenders (tracks st old)),
                 totalSenderCount := totalSenderCount (tracks st old)
                                       - int (count_list (activeSenders (tracks st old)) s)\<rparr>)\<rparr>)"
    using assms(8) by (simp add: unsetCurrentTrack_def removeSender_eq Let_def)
  show ?thesis
    unfolding sw using assms(4,6,7)
    by (simp add: swapTrack_def lock_def un setNewTrack_def Let_def)
qed

text \<open>
  Scenarios C and D: the sender is bound to track A and the direction is sendrecv.
  Replacing with track B (VP8) succeeds: A lists no sender, B lists the sender, the
  direction is still sendrecv. Replacing with track C (H264) fails and changes nothing.
\<close>

lemma replaceTrack_swap_scenarios:
  "(case replaceTrack stopNothing (scenario RTPTransceiverDirectionSendrecv (Some 0) (Some 0)) 0 (Some 1)
    of Returned err st' \<Rightarrow>
         err = None \<and> track (senders st' 0) = Some 1
         \<and> activeSenders (tracks st' 0) = [] \<and> totalSenderCount (tracks st' 0) = 0
         \<and> activeSenders (tracks st' 1) = [0] \<and> totalSenderCount (tracks st' 1) = 1
         \<and> direction (transceivers st' 0) = RTPTransceiverDirectionSendrecv
     | Panicked \<Rightarrow> False
     | Deadlocked \<Rightarrow> False)
   \<and> replaceTrack stopNothing (scenario RTPTransceiverDirectionSendrecv (Some 0) (Some 0)) 0 (Some 2)
     = Returned (Some InvalidModificationError)
         (scenario RTPTransceiverDirectionSendrecv (Some 0) (Some 0))"
proof -
  let ?st = "scenario RTPTransceiverDirectionSendrecv (Some 0) (Some 0)"
  have h1: "\<not> stopped (transceivers ?st 0)"
    and h2: "direction (transceivers ?st 0) = RTPTransceiverDirectionSendrecv
         \<or> direction (transceivers ?st 0) = RTPTransceiverDirectionSendonly"
    and h3: "track_kind (tracks ?st new) = kind (transceivers ?st 0)"
    and h4: "track_receiver (tracks ?st 1) = None" "track_receiver (tracks ?st 2) = None"
    and h5: "sender (transceivers ?st 0) = Some 0"
    and h6: "track (senders ?st 0) = Some 0"
    and h7: "(0::nat) \<noteq> 1" "(0::nat) \<noteq> 2"
    and h8: "activeSenders (tracks ?st 0) \<noteq> []" for new
    by (simp_all add: scenario_def scenarioTracks_def videoTrack_def)
  from replaceTrack_swap [OF h1 h2 h3 h4(1) h5 h6 h7(1) h8, of stopNothing]
  have b: "case replaceTrack stopNothing ?st 0 (Some 1)
    of Returned err st' \<Rightarrow>
         err = None \<and> track (senders st' 0) = Some 1
         \<and> activeSenders (tracks st' 0) = [] \<and> totalSenderCount (tracks st' 0) = 0
         \<and> activeSenders (tracks st' 1) = [0] \<and> totalSenderCount (tracks st' 1) = 1
         \<and> direction (transceivers st' 0) = RTPTransceiverDirectionSendrecv
     | Panicked \<Rightarrow> False
     | Deadlocked \<Rightarrow> False"
    by (simp add: scenario_def scenarioTracks_def videoTrack_def)
  from replaceTrack_swap [OF h1 h2 h3 h4(2) h5 h6 h7(2) h8, of stopNothing]
  have c: "replaceTrack stopNothing ?st 0 (Some 2) = Returned (Some InvalidModificationError) ?st"
    by (simp add: scenario_def scenarioTracks_def videoTrack_def)
  from b c show ?thesis by simp
qed

text \<open>
  Claim C5 says that \<open>replaceTrack\<close> on a sending transceiver that is not stopped, with a
  non-null outbound track of the transceiver's kind and a sender that has a bound track,
  either fails with RenegotiationRequired (the MIME types differ) or moves the sender from
  the old track's active senders to the new track's. Two calls that meet these conditions,
  with equal MIME types, do neither. Replacing the bound track A with A itself never
  returns: the new track's mutex is held when the old track's mutex, the same one, is
  locked. And with a bound track that lists no active sender (track B here), replacing it
  with track A panics when the filtered slice is made with capacity \<open>-1\<close>.
\<close>

theorem replaceTrack_swap_deadlocks_and_panics:
  "replaceTrack stopNothing
       (scenario RTPTransceiverDirectionSendrecv (Some 0) (Some 0)) 0 (Some 0) = Deadlocked
   \<and> replaceTrack stopNothing
       (scenario RTPTransceiverDirectionSendrecv (Some 0) (Some 1)) 0 (Some 0) = Panicked"
  by (simp add: replaceTrack_def swapTrack_def lock_def unsetCurrentTrack_def scenario_def
      scenarioTracks_def videoTrack_def)

text \<open>
  The second store is reached by the code itself: on a recvonly transceiver with a sender,
  \<open>replaceTrack\<close> with track B binds B through \<open>setSendingTrack\<close>, which does not add
  the sender to B's active senders, and makes the direction sendrecv; the next
  \<open>replaceTrack\<close>, with track A, panics.
\<close>

lemma replaceTrack_after_bind_panics:
  "(case replaceTrack stopNothing (scenario RTPTransceiverDirectionRecvonly (Some 0) None) 0 (Some 1)
    of Returned err st1 \<Rightarrow>
         err = None \<and> track (senders st1 0) = Some 1 \<and> activeSenders (tracks st1 1) = []
         \<and> direction (transceivers st1 0) = RTPTransceiverDirectionSendrecv
         \<and> replaceTrack stopNothing st1 0 (Some 0) = Panicked
     | Panicked \<Rightarrow> False
     | Deadlocked \<Rightarrow> False)"
  by (simp add: replaceTrack_def setSendingTrack_def switchDirection_def setDirection_def
      swapTrack_def lock_def unsetCurrentTrack_def
      scenario_def scenarioTracks_def videoTrack_def Let_def)





text \<open>
  The errors that do leave the store as it was. When \<open>replaceTrack\<close> returns the type
  error (TypeMismatch), the invalid-state error of a stopped transceiver (InvalidState) or
  the invalid-modification error (RenegotiationRequired), the store it leaves is the store
  it was given: these errors are returned before anything is written. When
  \<open>setSendingTrack\<close> returns an error, it is the invalid-state-change error; every track
  and the transceiver's direction are as before.
\<close>

lemma replaceTrack_error_unchanged:
  "(replaceTrack stop st t trk = Returned (Some e) st'
      \<and> (e = TypeError \<or> e = InvalidStateError \<or> e = InvalidModificationError)
      \<longrightarrow> st' = st)
   \<and> (setSendingTrack st t trk = Returned (Some e) st'
      \<longrightarrow> e = InvalidStateChange
          \<and> tracks st' = tracks st
          \<and> direction (transceivers st' t) = direction (transceivers st t))"
proof (intro conjI impI)
  assume h: "replaceTrack stop st t trk = Returned (Some e) st'
      \<and> (e = TypeError \<or> e = InvalidStateError \<or> e = InvalidModificationError)"
  then consider (early) "st' = st"
    | (set) "setSendingTrack st t trk = Returned (Some e) st'"
    | (stopped) err where "e = StopError err"
    | (stopset) st1 where "setSendingTrack st1 t None = Returned (Some e) st'"
    | (swap) new where "swapTrack st (sender (transceivers st t)) new = Returned (Some e) st'"
    by (auto simp: replaceTrack_def Let_def split: if_splits option.splits prod.splits)
  then show "st' = st"
  proof cases
    case early
    then show ?thesis .
  next
    case set
    from setSendingTrack_Returned(2) [OF set] h show ?thesis by auto
  next
    case stopped
    with h show ?thesis by auto
  next
    case stopset
    from setSendingTrack_Returned(2) [OF stopset] h show ?thesis by auto
  next
    case swap
    from swapTrack_Returned(2) [OF swap] show ?thesis by auto
  qed
next
  assume h: "setSendingTrack st t trk = Returned (Some e) st'"
  from setSendingTrack_Returned(2) [OF h] show "e = InvalidStateChange" by simp
next
  assume h: "setSendingTrack st t trk = Returned (Some e) st'"
  from setSendingTrack_Returned(1) [OF h] show "tracks st' = tracks st" .
next
  assume h: "setSendingTrack st t trk = Returned (Some e) st'"
  from setSendingTrack_Returned(3) [OF h]
  show "direction (transceivers st' t) = direction (transceivers st t)" by auto
qed

text \<open>
  Claim C2 says that a call of \<open>replaceTrack\<close> or \<open>setSendingTrack\<close> that returns a
  TypeMismatch, InvalidState or RenegotiationRequired error leaves all shared state as it
  was. The error of \<open>setSendingTrack\<close> for a transition outside the table does not:
  the function stores the track in the sender, and for a \<open>nil\<close> track empties the sender
  slot, before its switch looks at the direction. \<open>replaceTrack(nil)\<close> on a recvonly
  transceiver with a sender returns the invalid-state-change error, and the sender slot,
  which held the sender, is empty and the sender's back reference is gone.
\<close>

theorem replaceTrack_error_empties_sender_slot:
  "(case replaceTrack stopNothing (scenario RTPTransceiverDirectionRecvonly (Some 0) None) 0 None
    of Returned err st' \<Rightarrow>
         err = Some InvalidStateChange
         \<and> sender (transceivers st' 0) = None
         \<and> transceiver (senders st' 0) = None
     | Panicked \<Rightarrow> False
     | Deadlocked \<Rightarrow> False)
   \<and> sender (transceivers (scenario RTPTransceiverDirectionRecvonly (Some 0) None) 0) = Some 0
   \<and> transceiver (senders (scenario RTPTransceiverDirectionRecvonly (Some 0) None) 0) = Some 0"
  by (simp add: replaceTrack_def setSendingTrack_def setSender_None switchDirection_def
      scenario_def Let_def)

text \<open>
  Claim C1 says that \<open>replaceTrack\<close> never installs an inbound track as the sender's bound
  track, whatever the direction. The check for a remote track stands only on the path of a
  sending transceiver. On a recvonly transceiver with a sender, \<open>replaceTrack\<close> with the
  inbound video track (track 3, which has a receiver) returns no error, the sender's bound
  track is that inbound track, and the direction is sendrecv.
\<close>

theorem replaceTrack_binds_inbound_track:
  "(case replaceTrack stop (scenario RTPTransceiverDirectionRecvonly (Some 0) None) 0 (Some 3)
    of Returned err st' \<Rightarrow>
         err = None
         \<and> track (senders st' 0) = Some 3
         \<and> track_receiver (tracks st' 3) = Some 0
         \<and> direction (transceivers st' 0) = RTPTransceiverDirectionSendrecv
     | Panicked \<Rightarrow> False
     | Deadlocked \<Rightarrow> False)"
  by (simp add: replaceTrack_def setSendingTrack_def switchDirection_def setDirection_def
      scenario_def scenarioTracks_def videoTrack_def Let_def)

text \<open>The sending path does reject it: the same call on the sendrecv transceiver fails.\<close>

lemma replaceTrack_rejects_inbound_when_sending:
  "replaceTrack stop (scenario RTPTransceiverDirectionSendrecv (Some 0) (Some 0)) 0 (Some 3)
     = Returned (Some RemoteTrackError) (scenario RTPTransceiverDirectionSendrecv (Some 0) (Some 0))"
  by (simp add: replaceTrack_def swapTrack_def lock_def scenario_def scenarioTracks_def
      videoTrack_def)

section \<open>Properties of the relays\<close>

lemma echoPump_writes:
  assumes "echoPump ssrcOf out events = (writes, w)" "i < length writes"
  shows "i < length events
     \<and> (\<exists>rtp. fst (events ! i) = Some rtp \<and> writes ! i = (out, rtp\<lparr>SSRC := ssrcOf OutputTrack1\<rparr>))"
  using assms
proof (induction ssrcOf out events arbitrary: writes w i rule: echoPump.induct)
  case (1 ssrcOf outputTrack)
  then show ?case by simp
next
  case (2 ssrcOf outputTrack writeErr events)
  then show ?case by simp
next
  case (3 ssrcOf outputTrack rtp writeErr events)
  show ?case
  proof (cases "writeErr \<noteq> WriteOk \<and> writeErr \<noteq> ErrClosedPipe")
    case True
    with "3.prems" show ?thesis by (auto simp: Let_def)
  next
    case False
    obtain ws w1 where r: "echoPump ssrcOf outputTrack events = (ws, w1)"
      by (cases "echoPump ssrcOf outputTrack events")
    with False "3.prems" have wr: "writes = (outputTrack, rtp\<lparr>SSRC := ssrcOf OutputTrack1\<rparr>) # ws"
      by (auto simp: Let_def)
    show ?thesis
    proof (cases i)
      case 0
      with wr show ?thesis by simp
    next
      case (Suc j)
      with wr "3.prems"(2) have "j < length ws" by simp
      from "3.IH" [OF refl False r this] Suc wr show ?thesis by simp
    qed
  qed
qed

lemma echoPump_length:
  assumes "\<forall>e \<in> set events. fst e \<noteq> None \<and> snd e \<noteq> WriteFailed"
  shows "length (fst (echoPump ssrcOf out events)) = length events"
  using assms
proof (induction ssrcOf out events rule: echoPump.induct)
  case (3 ssrcOf outputTrack rtp writeErr events)
  then show ?case by (cases writeErr) (auto simp: Let_def split: prod.splits)
qed auto

text \<open>
  Claim C3, as amended. In the packet pump of the echo relay, started for the first or the
  second inbound track, the packets are written in the order they arrive: the \<open>i\<close>-th
  write is the \<open>i\<close>-th packet read, written to the output track chosen for this inbound
  track, with no field changed but the SSRC, which is the SSRC of the first output track
  (\<open>outputTrack1\<close>), whichever output track the packet is written to. Every packet read is
  written as long as no read fails and no write fails with another error than the closed
  pipe.
\<close>

theorem echo_forwards:
  assumes "selectOutputTrack trackCount = Some out"
    and "onTrackEcho ssrcOf trackCount events = (n, writes, w)"
  shows "length writes \<le> length events
    \<and> (\<forall>i<length writes. \<exists>rtp. fst (events ! i) = Some rtp
           \<and> writes ! i = (out, rtp\<lparr>SSRC := ssrcOf OutputTrack1\<rparr>))
    \<and> ((\<forall>e \<in> set events. fst e \<noteq> None \<and> snd e \<noteq> WriteFailed)
         \<longrightarrow> length writes = length events)"
proof -
  from assms have r: "echoPump ssrcOf out events = (writes, w)"
    by (simp add: onTrackEcho_def)
  have le: "length writes \<le> length events"
  proof (cases writes)
    case Nil
    then show ?thesis by simp
  next
    case (Cons a ws)
    then have "length writes - 1 < length writes" by simp
    from echoPump_writes [OF r this] Cons show ?thesis by simp
  qed
  from echoPump_writes [OF r] echoPump_length [of events ssrcOf out] r le
  show ?thesis by auto
qed

text \<open>
  The theorem at work, on the second inbound track: two packets, the second written to a
  closed pipe; both are written to the second output track, in order, with the SSRC of the
  first.
\<close>

theorem echo_forwards_witness:
  "selectOutputTrack 1 = Some OutputTrack2
   \<and> onTrackEcho sampleSSRC 1
       [(Some (samplePacket 9 100 97), WriteOk), (Some (samplePacket 9 200 97), ErrClosedPipe)]
     = (2, [(OutputTrack2, (samplePacket 9 100 97)\<lparr>SSRC := 1111\<rparr>),
            (OutputTrack2, (samplePacket 9 200 97)\<lparr>SSRC := 1111\<rparr>)], Waiting)"
proof -
  let ?events = "[(Some (samplePacket 9 100 97), WriteOk),
      (Some (samplePacket 9 200 97), ErrClosedPipe)]"
  obtain n writes w where r: "onTrackEcho sampleSSRC 1 ?events = (n, writes, w)"
    and nw: "n = 2" "w = Waiting"
    by (simp add: onTrackEcho_def selectOutputTrack_def)
  have h: "selectOutputTrack 1 = Some OutputTrack2"
    by (simp add: selectOutputTrack_def)
  have ok: "\<forall>e \<in> set ?events. fst e \<noteq> None \<and> snd e \<noteq> WriteFailed"
    by simp
  from echo_forwards [OF h r] ok
  have len: "length writes = 2"
    and each: "\<forall>i<length writes. \<exists>rtp. fst (?events ! i) = Some rtp
           \<and> writes ! i = (OutputTrack2, rtp\<lparr>SSRC := sampleSSRC OutputTrack1\<rparr>)"
    by simp_all
  from each len have "writes ! 0 = (OutputTrack2, (samplePacket 9 100 97)\<lparr>SSRC := 1111\<rparr>)"
    and "writes ! 1 = (OutputTrack2, (samplePacket 9 200 97)\<lparr>SSRC := 1111\<rparr>)"
    by (auto simp: less_Suc_eq numeral_2_eq_2)
  with len have "writes = [(OutputTrack2, (samplePacket 9 100 97)\<lparr>SSRC := 1111\<rparr>),
            (OutputTrack2, (samplePacket 9 200 97)\<lparr>SSRC := 1111\<rparr>)]"
    by (cases writes; cases "tl writes") (auto simp: numeral_2_eq_2)
  with r nw h show ?thesis by simp
qed

text \<open>
  The claim as first stated has the written SSRC equal to the SSRC of the track written
  to. For the second inbound track the packets go to the second output track and carry the
  SSRC of the first: here 1111, where the track written to has 2222.
\<close>

theorem echo_forwards_counterexample:
  "onTrackEcho sampleSSRC 1 [(Some (samplePacket 9 100 97), WriteOk)]
     = (2, [(OutputTrack2, (samplePacket 9 100 97)\<lparr>SSRC := 1111\<rparr>)], Waiting)
   \<and> sampleSSRC OutputTrack2 = 2222"
  by (simp add: onTrackEcho_def selectOutputTrack_def)

lemma consumer_nth:
  assumes "consumer outputSSRC st events = (ps, w)" "n < length ps"
  shows "n < length events
     \<and> ps ! n = (fst (events ! n))
          \<lparr>Timestamp := currTimestamp st + sum_list (map (\<lambda>e. Timestamp (fst e)) (take (Suc n) events)),
           SSRC := outputSSRC, SequenceNumber := seqNum st + of_nat n,
           Extension := False, ExtensionProfile := 0, Extensions := []\<rparr>"
  using assms
proof (induction events arbitrary: st ps n w)
  case Nil
  then show ?case by simp
next
  case (Cons e events)
  obtain packet writeErr where e: "e = (packet, writeErr)" by (cases e)
  show ?case
  proof (cases "writeErr \<noteq> WriteOk \<and> writeErr \<noteq> ErrClosedPipe")
    case True
    with Cons.prems e show ?thesis
      by (auto simp: consumerStep_def Let_def)
  next
    case False
    let ?st1 = "st\<lparr>currTimestamp := currTimestamp st + Timestamp packet, seqNum := seqNum st + 1\<rparr>"
    obtain qs w1 where r: "consumer outputSSRC ?st1 events = (qs, w1)"
      by (cases "consumer outputSSRC ?st1 events")
    with False Cons.prems(1) e
    have ps: "ps = packet\<lparr>Timestamp := currTimestamp st + Timestamp packet, SSRC := outputSSRC,
                SequenceNumber := seqNum st, Extension := False, ExtensionProfile := 0,
                Extensions := []\<rparr> # qs"
      by (auto simp: consumerStep_def Let_def)
    show ?thesis
    proof (cases n)
      case 0
      with ps e show ?thesis by simp
    next
      case (Suc m)
      with ps Cons.prems(2) have "m < length qs" by simp
      from Cons.IH [OF r this] Suc ps e show ?thesis
        by (simp add: add.assoc)
    qed
  qed
qed

lemma consumer_length:
  assumes "\<forall>e \<in> set events. snd e \<noteq> WriteFailed"
  shows "length (fst (consumer outputSSRC st events)) = length events"
  using assms
proof (induction events arbitrary: st)
  case Nil
  then show ?case by simp
next
  case (Cons e events)
  obtain packet writeErr where e: "e = (packet, writeErr)" by (cases e)
  let ?st1 = "st\<lparr>currTimestamp := currTimestamp st + Timestamp packet, seqNum := seqNum st + 1\<rparr>"
  from Cons have "length (fst (consumer outputSSRC ?st1 events)) = length events"
    by simp
  with Cons.prems e show ?case
    by (cases "consumer outputSSRC ?st1 events"; cases writeErr)
       (auto simp: consumerStep_def Let_def)
qed

lemma unat_sum_list_word:
  "unat (sum_list (ws :: 'a::len word list)) = sum_list (map unat ws) mod 2 ^ LENGTH('a)"
proof (induction ws)
  case Nil
  then show ?case by simp
next
  case (Cons a ws)
  then show ?case
    by (simp add: unat_word_ariths mod_add_right_eq)
qed

lemma sum_list_take_mono:
  fixes f :: "'a \<Rightarrow> nat"
  assumes "m \<le> n"
  shows "sum_list (map f (take m xs)) \<le> sum_list (map f (take n xs))"
proof -
  from assms have "take n xs = take m xs @ take (n - m) (drop m xs)"
    by (metis le_add_diff_inverse take_add)
  then show ?thesis by simp
qed

text \<open>
  Claim C8, as amended. The \<open>n\<close>-th packet that the consumer writes (counting from 0) has
  as timestamp the sum of the deltas of the packets taken from the channel so far, as a
  32-bit word, that is, modulo \<open>2^32\<close>; so up to \<open>n\<close> the timestamps are non-decreasing
  as long as that sum is below \<open>2^32\<close>. Its sequence number is \<open>n\<close> as a 16-bit word,
  that is, \<open>n\<close> modulo \<open>2^16\<close>: consecutive from 0, each one more than the one before,
  wrapping to 0 after 65535. Its SSRC is the output track's, and the extension flag, the
  extension profile and the extensions are cleared.
\<close>

theorem consumer_rewrites:
  assumes "consumer outputSSRC consumerStart events = (ps, w)" and "n < length ps"
  shows "Timestamp (ps ! n) = sum_list (map (\<lambda>e. Timestamp (fst e)) (take (Suc n) events))
    \<and> unat (Timestamp (ps ! n))
        = sum_list (map (\<lambda>e. unat (Timestamp (fst e))) (take (Suc n) events)) mod 2 ^ 32
    \<and> (\<forall>m\<le>n. sum_list (map (\<lambda>e. unat (Timestamp (fst e))) (take (Suc n) events)) < 2 ^ 32
          \<longrightarrow> Timestamp (ps ! m) \<le> Timestamp (ps ! n))
    \<and> SequenceNumber (ps ! n) = of_nat n
    \<and> unat (SequenceNumber (ps ! n)) = n mod 2 ^ 16
    \<and> SSRC (ps ! n) = outputSSRC
    \<and> \<not> Extension (ps ! n) \<and> ExtensionProfile (ps ! n) = 0 \<and> Extensions (ps ! n) = []"
proof -
  let ?sum = "\<lambda>k. sum_list (map (\<lambda>e. unat (Timestamp (fst e))) (take (Suc k) events))"
  have ts: "Timestamp (ps ! k) = sum_list (map (\<lambda>e. Timestamp (fst e)) (take (Suc k) events))"
    and sq: "SequenceNumber (ps ! k) = of_nat k"
    and rest: "SSRC (ps ! k) = outputSSRC" "\<not> Extension (ps ! k)"
      "ExtensionProfile (ps ! k) = 0" "Extensions (ps ! k) = []"
    if "k < length ps" for k
    using consumer_nth [OF assms(1) that] by (simp_all add: consumerStart_def)
  have un: "unat (Timestamp (ps ! k)) = ?sum k mod 2 ^ 32" if "k < length ps" for k
    using ts [OF that] unat_sum_list_word [of "map (\<lambda>e. Timestamp (fst e)) (take (Suc k) events)"]
    by (simp add: comp_def)
  have mono: "Timestamp (ps ! m) \<le> Timestamp (ps ! n)" if "m \<le> n" "?sum n < 2 ^ 32" for m
  proof -
    from that(1) have "?sum m \<le> ?sum n"
      by (intro sum_list_take_mono) simp
    with that assms(2) un [of m] un [of n] show ?thesis
      by (simp add: word_le_nat_alt)
  qed
  have "unat (SequenceNumber (ps ! n)) = n mod 2 ^ 16"
    using sq [OF assms(2)] by (simp add: unat_of_nat)
  with ts [OF assms(2)] un [OF assms(2)] mono sq [OF assms(2)] rest [OF assms(2)]
  show ?thesis by blast
qed

text \<open>
  The theorem at work: three packets with the deltas 0, 3000 and 3000, the second written
  to a closed pipe; the third is written with timestamp 6000 and sequence number 2.
\<close>

theorem consumer_rewrites_witness:
  "2 < length (fst (consumer 1111 consumerStart
         [(samplePacket 9 0 97, WriteOk), (samplePacket 9 3000 97, ErrClosedPipe),
          (samplePacket 9 3000 97, WriteOk)]))
   \<and> Timestamp (fst (consumer 1111 consumerStart
         [(samplePacket 9 0 97, WriteOk), (samplePacket 9 3000 97, ErrClosedPipe),
          (samplePacket 9 3000 97, WriteOk)]) ! 2) = 6000
   \<and> SequenceNumber (fst (consumer 1111 consumerStart
         [(samplePacket 9 0 97, WriteOk), (samplePacket 9 3000 97, ErrClosedPipe),
          (samplePacket 9 3000 97, WriteOk)]) ! 2) = 2
   \<and> SSRC (fst (consumer 1111 consumerStart
         [(samplePacket 9 0 97, WriteOk), (samplePacket 9 3000 97, ErrClosedPipe),
          (samplePacket 9 3000 97, WriteOk)]) ! 2) = 1111
   \<and> Extensions (fst (consumer 1111 consumerStart
         [(samplePacket 9 0 97, WriteOk), (samplePacket 9 3000 97, ErrClosedPipe),
          (samplePacket 9 3000 97, WriteOk)]) ! 2) = []"
proof -
  let ?events = "[(samplePacket 9 0 97, WriteOk), (samplePacket 9 3000 97, ErrClosedPipe),
          (samplePacket 9 3000 97, WriteOk)]"
  let ?r = "consumer 1111 consumerStart ?events"
  have h1: "?r = (fst ?r, snd ?r)" by simp
  have h2: "2 < length (fst ?r)"
    by (simp add: consumerStep_def consumerStart_def Let_def)
  from consumer_rewrites [OF h1 h2] h2 show ?thesis
    by (simp add: samplePacket_def)
qed

text \<open>
  The claim as first stated has the timestamps non-decreasing and the sequence numbers
  increasing integers. Both fields are machine words: with the deltas \<open>2^32 - 1\<close> and 1
  the second timestamp written is 0, below the first; and the packet written after 65536
  others carries the sequence number 0, after 65535.
\<close>

theorem consumer_rewrites_counterexample:
  "Timestamp (fst (consumer 1111 consumerStart
       [(samplePacket 9 4294967295 97, WriteOk), (samplePacket 9 1 97, WriteOk)]) ! 0) = 4294967295
   \<and> Timestamp (fst (consumer 1111 consumerStart
       [(samplePacket 9 4294967295 97, WriteOk), (samplePacket 9 1 97, WriteOk)]) ! 1) = 0
   \<and> SequenceNumber (fst (consumer 1111 consumerStart
       (replicate 65537 (samplePacket 9 0 97, WriteOk))) ! 65535) = 65535
   \<and> SequenceNumber (fst (consumer 1111 consumerStart
       (replicate 65537 (samplePacket 9 0 97, WriteOk))) ! 65536) = 0"
proof -
  let ?events = "replicate 65537 (samplePacket 9 0 97, WriteOk)"
  let ?r = "consumer 1111 consumerStart ?events"
  have len: "length (fst ?r) = 65537"
    using consumer_length [of ?events 1111 consumerStart] by simp
  have r: "?r = (fst ?r, snd ?r)" by simp
  have a: "SequenceNumber (fst ?r ! 65535) = 65535"
    using consumer_nth [OF r, of 65535] len by (simp add: consumerStart_def)
  have b: "SequenceNumber (fst ?r ! 65536) = 0"
    using consumer_nth [OF r, of 65536] len by (simp add: consumerStart_def)
  have c: "Timestamp (fst (consumer 1111 consumerStart
       [(samplePacket 9 4294967295 97, WriteOk), (samplePacket 9 1 97, WriteOk)]) ! 0) = 4294967295"
    "Timestamp (fst (consumer 1111 consumerStart
       [(samplePacket 9 4294967295 97, WriteOk), (samplePacket 9 1 97, WriteOk)]) ! 1) = 0"
    by (simp_all add: consumerStep_def consumerStart_def samplePacket_def Let_def)
  from a b c show ?thesis by simp
qed

text \<open>
  Claim C9, as amended. For every message whose \<open>rid\<close> string is not empty, the handler
  returns and leaves the shared variables as they were, but for the selected stream id,
  which is the first byte of the string. (\<open>c # cs\<close> is any non-empty string; the record
  may have further fields, which stay as well.)
\<close>

theorem onMessage_first_byte:
  "onMessage (Some (c # cs)) r = Some (r\<lparr>currRTPStreamID := c\<rparr>)"
  by (simp add: onMessage_def)

text \<open>
  The claim as first stated has the handler succeed for every string. For the empty
  string \<open>v.RID[0]\<close> is out of range and the handler panics.
\<close>

theorem onMessage_first_byte_counterexample:
  "onMessage (Some []) \<lparr>currRTPStreamID = 97, packets = []\<rparr> = None"
  by (simp add: onMessage_def)

lemma pumpStep_rewrite:
  assumes "pumpStep ridExt currID st rtp = (st1, a)"
  shows "lastTimestamp st1 = Timestamp rtp"
    and "packetOf a = rtp\<lparr>Timestamp :=
           (if lastTimestamp st = 0 then 0 else Timestamp rtp - lastTimestamp st)\<rparr>"
  using assms
  by (auto simp: pumpStep_def Let_def split: list.splits if_splits)

lemma pump_nth:
  assumes "pump ridExt st events = (acts, w)" "n < length acts"
  shows "n < length events
     \<and> (\<exists>rtp. fst (events ! n) = Some rtp
          \<and> packetOf (acts ! n) = rtp\<lparr>Timestamp :=
               (if (if n = 0 then lastTimestamp st
                    else Timestamp (the (fst (events ! (n - 1))))) = 0 then 0
                else Timestamp rtp
                     - (if n = 0 then lastTimestamp st
                        else Timestamp (the (fst (events ! (n - 1))))))\<rparr>)"
  using assms
proof (induction events arbitrary: st acts w n)
  case Nil
  then show ?case by simp
next
  case (Cons e events)
  obtain r currID where e: "e = (r, currID)" by (cases e)
  show ?case
  proof (cases r)
    case None
    with Cons.prems e show ?thesis by simp
  next
    case (Some rtp)
    obtain st1 a where s: "pumpStep ridExt currID st rtp = (st1, a)"
      by (cases "pumpStep ridExt currID st rtp")
    note rw = pumpStep_rewrite [OF s]
    show ?thesis
    proof (cases n)
      case 0
      from Cons.prems s e Some have "acts ! 0 = a"
        by (cases a) (auto split: prod.splits)
      with 0 rw(2) e Some show ?thesis by simp
    next
      case (Suc m)
      obtain acts1 w1 where p: "pump ridExt st1 events = (acts1, w1)"
        by (cases "pump ridExt st1 events")
      from Cons.prems s e Some Suc p have acts: "acts = a # acts1"
        by (cases a) auto
      with Cons.prems(2) Suc have m: "m < length acts1" by simp
      from Cons.IH [OF p m] obtain rtp' where
        len: "m < length events" and ev: "fst (events ! m) = Some rtp'"
        and pk: "packetOf (acts1 ! m) = rtp'\<lparr>Timestamp :=
               (if (if m = 0 then lastTimestamp st1
                    else Timestamp (the (fst (events ! (m - 1))))) = 0 then 0
                else Timestamp rtp'
                     - (if m = 0 then lastTimestamp st1
                        else Timestamp (the (fst (events ! (m - 1))))))\<rparr>"
        by blast
      have prev: "(if m = 0 then lastTimestamp st1 else Timestamp (the (fst (events ! (m - 1)))))
          = Timestamp (the (fst ((e # events) ! (Suc m - 1))))"
        using rw(1) e Some by (cases m) simp_all
      from len ev pk show ?thesis
        unfolding Suc acts prev [symmetric] by simp
    qed
  qed
qed

lemma pumpStep_not_Fatal:
  assumes "GetExtension rtp ridExt \<noteq> []"
  shows "\<forall>p. snd (pumpStep ridExt currID st rtp) \<noteq> Fatal p"
proof -
  have "GetExtension (rtp\<lparr>Timestamp := x\<rparr>) ridExt = GetExtension rtp ridExt" for x
    by (simp add: GetExtension_def)
  with assms show ?thesis
    by (auto simp: pumpStep_def Let_def split: list.splits)
qed

lemma pump_reaches:
  assumes "n < length events"
    and "fst (events ! n) \<noteq> None"
    and "\<forall>k<n. \<exists>p. fst (events ! k) = Some p \<and> GetExtension p ridExt \<noteq> []"
  shows "n < length (fst (pump ridExt st events))"
  using assms
proof (induction events arbitrary: st n)
  case Nil
  then show ?case by simp
next
  case (Cons e events)
  obtain r currID where e: "e = (r, currID)" by (cases e)
  show ?case
  proof (cases n)
    case 0
    with Cons.prems(2) e obtain rtp where "r = Some rtp" by auto
    with e 0 show ?thesis
      by (cases "pumpStep ridExt currID st rtp"; cases "snd (pumpStep ridExt currID st rtp)")
         (auto split: prod.splits)
  next
    case (Suc m)
    with Cons.prems(3) e obtain rtp where r: "r = Some rtp"
      and ext: "GetExtension rtp ridExt \<noteq> []"
      by fastforce
    obtain st1 a where s: "pumpStep ridExt currID st rtp = (st1, a)"
      by (cases "pumpStep ridExt currID st rtp")
    from pumpStep_not_Fatal [OF ext, of currID st] s have nf: "\<forall>p. a \<noteq> Fatal p"
      by simp
    from Cons.prems Suc have "m < length events" "fst (events ! m) \<noteq> None"
      "\<forall>k<m. \<exists>p. fst (events ! k) = Some p \<and> GetExtension p ridExt \<noteq> []"
      by auto
    from Cons.IH [OF this, of st1] have "m < length (fst (pump ridExt st1 events))" .
    with e r s nf Suc show ?thesis
      by (cases a) (auto split: prod.splits)
  qed
qed

lemma pump_covers:
  assumes "\<forall>e \<in> set events. \<exists>p. fst e = Some p \<and> GetExtension p ridExt \<noteq> []"
  shows "pump ridExt st events = (fst (pump ridExt st events), Waiting)
     \<and> length (fst (pump ridExt st events)) = length events"
  using assms
proof (induction events arbitrary: st)
  case Nil
  then show ?case by simp
next
  case (Cons e events)
  obtain r currID where e: "e = (r, currID)" by (cases e)
  with Cons.prems obtain rtp where r: "r = Some rtp"
    and ext: "GetExtension rtp ridExt \<noteq> []"
    by auto
  obtain st1 a where s: "pumpStep ridExt currID st rtp = (st1, a)"
    by (cases "pumpStep ridExt currID st rtp")
  from pumpStep_not_Fatal [OF ext, of currID st] s have nf: "\<forall>p. a \<noteq> Fatal p"
    by simp
  from Cons.prems have "\<forall>e \<in> set events. \<exists>p. fst e = Some p \<and> GetExtension p ridExt \<noteq> []"
    by simp
  from Cons.IH [OF this, of st1]
  have "pump ridExt st1 events = (fst (pump ridExt st1 events), Waiting)"
    and "length (fst (pump ridExt st1 events)) = length events"
    by simp_all
  with e r s nf show ?case
    by (cases a) (auto split: prod.splits)
qed

text \<open>
  Claim C10. In one turn of the simulcast pump, whatever then becomes of the packet
  (sent, skipped by the stream id filter, or fatal for want of the extension), the
  packet's timestamp is rewritten to 0 when the stored \<open>lastTimestamp\<close> is 0 and to the
  original timestamp minus \<open>lastTimestamp\<close> modulo \<open>2^32\<close> otherwise, and
  \<open>lastTimestamp\<close> becomes the packet's original timestamp. Along a run of the pump from
  its start every received packet has its turn, as long as no read failed and no packet
  before it lacked the stream id extension: the pump goes on after a packet it skipped.
  The packet of the first turn gets timestamp 0, and the packet of any later turn gets 0
  when the packet received just before it on the track had the original timestamp 0, and
  otherwise its own original timestamp minus that one, whether that packet was sent or
  skipped; the rest of the packet is as received.
\<close>

theorem pump_rewrites_timestamp:
  "(pumpStep ridExt currID st rtp = (st1, a)
      \<longrightarrow> lastTimestamp st1 = Timestamp rtp
          \<and> Timestamp (packetOf a)
              = (if lastTimestamp st = 0 then 0 else Timestamp rtp - lastTimestamp st)
          \<and> uint (Timestamp (packetOf a))
              = (if lastTimestamp st = 0 then 0
                 else (uint (Timestamp rtp) - uint (lastTimestamp st)) mod 2 ^ 32))
   \<and> (pump ridExt pumpStart events = (acts, w) \<and> n < length acts
      \<longrightarrow> n < length events
          \<and> (\<exists>rtp. fst (events ! n) = Some rtp
               \<and> (n = 0 \<longrightarrow> packetOf (acts ! n) = rtp\<lparr>Timestamp := 0\<rparr>)
               \<and> (0 < n \<longrightarrow> (\<exists>prev. fst (events ! (n - 1)) = Some prev
                     \<and> packetOf (acts ! n) = rtp\<lparr>Timestamp :=
                          (if Timestamp prev = 0 then 0
                           else Timestamp rtp - Timestamp prev)\<rparr>))))
   \<and> (pump ridExt pumpStart events = (acts, w) \<and> n < length events
        \<and> fst (events ! n) \<noteq> None
        \<and> (\<forall>k<n. \<exists>p. fst (events ! k) = Some p \<and> GetExtension p ridExt \<noteq> [])
      \<longrightarrow> n < length acts)
   \<and> (pump ridExt pumpStart events = (acts, w)
        \<and> (\<forall>e \<in> set events. \<exists>p. fst e = Some p \<and> GetExtension p ridExt \<noteq> [])
      \<longrightarrow> length acts = length events \<and> w = Waiting)"
proof (intro conjI impI)
  assume s: "pumpStep ridExt currID st rtp = (st1, a)"
  from pumpStep_rewrite(1) [OF s] show "lastTimestamp st1 = Timestamp rtp" .
  from pumpStep_rewrite(2) [OF s]
  show ts: "Timestamp (packetOf a)
      = (if lastTimestamp st = 0 then 0 else Timestamp rtp - lastTimestamp st)"
    by simp
  show "uint (Timestamp (packetOf a))
      = (if lastTimestamp st = 0 then 0
         else (uint (Timestamp rtp) - uint (lastTimestamp st)) mod 2 ^ 32)"
    unfolding ts by (simp add: uint_word_ariths)
next
  assume h: "pump ridExt pumpStart events = (acts, w) \<and> n < length acts"
  then have p: "pump ridExt pumpStart events = (acts, w)" and n: "n < length acts"
    by simp_all
  from pump_nth [OF p n] show "n < length events" by simp
  from pump_nth [OF p n] obtain rtp where ev: "fst (events ! n) = Some rtp"
    and pk: "packetOf (acts ! n) = rtp\<lparr>Timestamp :=
               (if (if n = 0 then lastTimestamp pumpStart
                    else Timestamp (the (fst (events ! (n - 1))))) = 0 then 0
                else Timestamp rtp
                     - (if n = 0 then lastTimestamp pumpStart
                        else Timestamp (the (fst (events ! (n - 1))))))\<rparr>"
    by blast
  have later: "\<exists>prev. fst (events ! (n - 1)) = Some prev
      \<and> packetOf (acts ! n) = rtp\<lparr>Timestamp :=
           (if Timestamp prev = 0 then 0 else Timestamp rtp - Timestamp prev)\<rparr>" if "0 < n"
  proof -
    from that n have "n - 1 < length acts" by simp
    from pump_nth [OF p this] obtain prev where "fst (events ! (n - 1)) = Some prev"
      by blast
    with pk that show ?thesis by simp
  qed
  from ev pk later
  show "\<exists>rtp. fst (events ! n) = Some rtp
      \<and> (n = 0 \<longrightarrow> packetOf (acts ! n) = rtp\<lparr>Timestamp := 0\<rparr>)
      \<and> (0 < n \<longrightarrow> (\<exists>prev. fst (events ! (n - 1)) = Some prev
            \<and> packetOf (acts ! n) = rtp\<lparr>Timestamp :=
                 (if Timestamp prev = 0 then 0 else Timestamp rtp - Timestamp prev)\<rparr>))"
    by (auto simp: pumpStart_def)
next
  assume h: "pump ridExt pumpStart events = (acts, w) \<and> n < length events
        \<and> fst (events ! n) \<noteq> None
        \<and> (\<forall>k<n. \<exists>p. fst (events ! k) = Some p \<and> GetExtension p ridExt \<noteq> [])"
  then have "n < length (fst (pump ridExt pumpStart events))"
    by (intro pump_reaches) simp_all
  with h show "n < length acts" by simp
next
  assume h: "pump ridExt pumpStart events = (acts, w)
        \<and> (\<forall>e \<in> set events. \<exists>p. fst e = Some p \<and> GetExtension p ridExt \<noteq> [])"
  then have "pump ridExt pumpStart events = (fst (pump ridExt pumpStart events), Waiting)
     \<and> length (fst (pump ridExt pumpStart events)) = length events"
    by (intro pump_covers) simp
  with h show "length acts = length events" and "w = Waiting" by simp_all
qed

text \<open>
  The theorem at work: three packets of stream \<open>a\<close> and \<open>b\<close> with the timestamps 1000,
  4000 and 7000, the selected id being \<open>a\<close>. All three have their turn. The second is
  skipped; the third is sent with the delta 3000 from the skipped one.
\<close>

theorem pump_rewrites_timestamp_witness:
  "length (fst (pump 1 pumpStart
     [(Some (samplePacket 9 1000 97), 97), (Some (samplePacket 9 4000 98), 97),
      (Some (samplePacket 9 7000 97), 97)])) = 3
   \<and> pump 1 pumpStart
     [(Some (samplePacket 9 1000 97), 97), (Some (samplePacket 9 4000 98), 97),
      (Some (samplePacket 9 7000 97), 97)]
   = ([Sent ((samplePacket 9 1000 97)\<lparr>Timestamp := 0\<rparr>) True,
       Skipped ((samplePacket 9 4000 98)\<lparr>Timestamp := 3000\<rparr>),
       Sent ((samplePacket 9 7000 97)\<lparr>Timestamp := 3000\<rparr>) True], Waiting)
   \<and> packetOf (fst (pump 1 pumpStart
       [(Some (samplePacket 9 1000 97), 97), (Some (samplePacket 9 4000 98), 97),
        (Some (samplePacket 9 7000 97), 97)]) ! 2)
     = (samplePacket 9 7000 97)\<lparr>Timestamp := 7000 - 4000\<rparr>"
proof -
  let ?events = "[(Some (samplePacket 9 1000 97), 97), (Some (samplePacket 9 4000 98), 97),
      (Some (samplePacket 9 7000 97), 97)]"
  let ?acts = "[Sent ((samplePacket 9 1000 97)\<lparr>Timestamp := 0\<rparr>) True,
       Skipped ((samplePacket 9 4000 98)\<lparr>Timestamp := 3000\<rparr>),
       Sent ((samplePacket 9 7000 97)\<lparr>Timestamp := 3000\<rparr>) True]"
  let ?r = "pump 1 pumpStart ?events"
  have ext: "pump 1 pumpStart ?events = (fst ?r, snd ?r)
      \<and> (\<forall>e \<in> set ?events. \<exists>p. fst e = Some p \<and> GetExtension p 1 \<noteq> [])"
    by (simp add: GetExtension_def samplePacket_def)
  from pump_rewrites_timestamp
    [where ridExt = 1 and events = ?events and acts = "fst ?r" and w = "snd ?r",
     THEN conjunct2, THEN conjunct2, THEN conjunct2, THEN mp, OF ext]
  have len: "length (fst ?r) = 3" by simp
  have run: "pump 1 pumpStart ?events = (?acts, Waiting)"
    by (simp add: pumpStep_def pumpStart_def GetExtension_def samplePacket_def Let_def)
  have h: "pump 1 pumpStart ?events = (?acts, Waiting) \<and> 2 < length ?acts"
    using run by simp
  from pump_rewrites_timestamp
    [where ridExt = 1 and events = ?events and acts = ?acts and w = Waiting and n = 2,
     THEN conjunct2, THEN conjunct1, THEN mp, OF h]
  have "packetOf (?acts ! 2) = (samplePacket 9 7000 97)\<lparr>Timestamp := 7000 - 4000\<rparr>"
    by (simp add: samplePacket_def)
  with run len show ?thesis by simp
qed

end
